theory Spec2Isabelle
  imports Complex_Main "HOL-Library.Word"
begin

section \<open>JavaScript strings\<close>

text \<open>
  A JavaScript string is a sequence of UTF-16 code units. Every character the splitter
  looks at (the delimiters, the white space of \<^verbatim>\<open>trim\<close>) is one code unit, so a
  string is a list of 16-bit words. ASCII literals are written through \<open>js\<close>.
\<close>

type_synonym jschar = "16 word"
type_synonym jsstring = "jschar list"

definition js :: "string \<Rightarrow> jsstring" where
  "js s = map (\<lambda>c. of_nat (of_char c)) s"

text \<open>
  \<^verbatim>\<open>String.prototype.trim\<close> removes WhiteSpace and LineTerminator code points from
  both ends: TAB, LF, VT, FF, CR, SP, NBSP, U+1680, U+2000..U+200A, LS, PS, U+202F,
  U+205F, U+3000 and the byte order mark.
\<close>

definition isWhiteSpace :: "jschar \<Rightarrow> bool" where
  "isWhiteSpace c = (c \<in> set [0x9, 0xA, 0xB, 0xC, 0xD, 0x20, 0xA0, 0x1680,
      0x2000, 0x2001, 0x2002, 0x2003, 0x2004, 0x2005, 0x2006, 0x2007, 0x2008, 0x2009,
      0x200A, 0x2028, 0x2029, 0x202F, 0x205F, 0x3000, 0xFEFF])"

definition trim :: "jsstring \<Rightarrow> jsstring" where
  "trim s = rev (dropWhile isWhiteSpace (rev (dropWhile isWhiteSpace s)))"

text \<open>Decimal rendering of an array index, as a template literal prints it.\<close>

fun decimal :: "nat \<Rightarrow> jsstring" where
  "decimal n = (if n < 10 then [of_nat (48 + n)]
                else decimal (n div 10) @ [of_nat (48 + n mod 10)])"

datatype js_error = TypeError

section \<open>MeetingMinutesSegmentSplitter.ts\<close>

subsection \<open>The delimiter table and the \<^verbatim>\<open>in\<close> operator\<close>

definition ja_JP :: jsstring where "ja_JP = js ''ja-JP''"
definition en_US :: jsstring where "en_US = js ''en-US''"

text \<open>
  \<^verbatim>\<open>SENTENCE_DELIMITERS\<close>: the object literal with its two own properties, in source
  order. The ideographic full stop is U+3002; both question marks are the ASCII one.
\<close>

definition SENTENCE_DELIMITERS :: "(jsstring \<times> jsstring list) list" where
  "SENTENCE_DELIMITERS =
     [(ja_JP, [[0x3002], js ''?'']),
      (en_US, [js ''.'', js ''?''])]"

text \<open>
  \<^verbatim>\<open>SENTENCE_DELIMITERS\<close> is an ordinary object, so its prototype is
  \<^verbatim>\<open>Object.prototype\<close>, and \<^verbatim>\<open>key in object\<close> is true for inherited properties as
  well as own ones. These are the property names of \<^verbatim>\<open>Object.prototype\<close> in a
  browser (ECMAScript, with Annex B).
\<close>

definition Object_prototype_keys :: "jsstring list" where
  "Object_prototype_keys =
     [js ''constructor'', js ''hasOwnProperty'', js ''isPrototypeOf'',
      js ''propertyIsEnumerable'', js ''toLocaleString'', js ''toString'',
      js ''valueOf'', js ''__proto__'', js ''__defineGetter__'',
      js ''__defineSetter__'', js ''__lookupGetter__'', js ''__lookupSetter__'']"

definition in_SENTENCE_DELIMITERS :: "jsstring \<Rightarrow> bool" where
  "in_SENTENCE_DELIMITERS k =
     (k \<in> set (map fst SENTENCE_DELIMITERS) \<or> k \<in> set Object_prototype_keys)"

text \<open>
  \<^verbatim>\<open>languageCode !== undefined && languageCode in SENTENCE_DELIMITERS\<close>; an absent
  argument is \<open>None\<close>.
\<close>

definition supportsSentenceTranslation :: "jsstring option \<Rightarrow> bool" where
  "supportsSentenceTranslation languageCode =
     (case languageCode of None \<Rightarrow> False | Some c \<Rightarrow> in_SENTENCE_DELIMITERS c)"

text \<open>
  Reading \<^verbatim>\<open>SENTENCE_DELIMITERS[languageCode]\<close>: an own property is its array of
  delimiters, an inherited one is a function or an object with no \<^verbatim>\<open>map\<close> method.
\<close>

datatype property_value = DelimiterArray "jsstring list" | InheritedValue | Undefined

definition get_SENTENCE_DELIMITERS :: "jsstring \<Rightarrow> property_value" where
  "get_SENTENCE_DELIMITERS k =
     (case map_of SENTENCE_DELIMITERS k of
        Some ds \<Rightarrow> DelimiterArray ds
      | None \<Rightarrow> if k \<in> set Object_prototype_keys then InheritedValue else Undefined)"

subsection \<open>The regular expression\<close>

text \<open>
  \<^verbatim>\<open>delimiter.replace(/[.*+?^${}()|[\]\\]/g, '\\$&')\<close> puts a backslash before each of
  the fourteen syntax characters.
\<close>

definition regex_specials :: "jschar list" where
  "regex_specials = js ''.*+?^${}()|[]'' @ [0x5C]"

definition escapeDelimiter :: "jsstring \<Rightarrow> jsstring" where
  "escapeDelimiter d =
     concat (map (\<lambda>c. if c \<in> set regex_specials then [0x5C, c] else [c]) d)"

text \<open>
  The pattern is \<^verbatim>\<open>([\<close>\<open>body\<close>\<^verbatim>\<open>])\<close> with flag \<^verbatim>\<open>g\<close>: one capture group around one
  character class, whose body is the escaped delimiters joined. In such a body (no
  ranges, no leading caret) a backslash makes the next character a literal and every
  other character stands for itself.
\<close>

fun class_members :: "jsstring \<Rightarrow> jschar list" where
  "class_members [] = []"
| "class_members [c] = [c]"
| "class_members (c # d # cs) =
     (if c = 0x5C then d # class_members cs else c # class_members (d # cs))"

text \<open>
  \<^verbatim>\<open>text.split(pattern)\<close> for a one-character class in a capture group: the spans
  between matches alternate with the captured characters, and the last span is always
  there (the empty string splits into one empty span). \<open>acc\<close> is the span read so far.
\<close>

fun split_capture :: "(jschar \<Rightarrow> bool) \<Rightarrow> jsstring \<Rightarrow> jsstring \<Rightarrow> jsstring list" where
  "split_capture m acc [] = [acc]"
| "split_capture m acc (c # cs) =
     (if m c then acc # [c] # split_capture m [] cs
      else split_capture m (acc @ [c]) cs)"

subsection \<open>splitIntoSentences\<close>

text \<open>
  The loop \<^verbatim>\<open>for (i = 0; i < parts.length; i += 2)\<close>: \<^verbatim>\<open>parts[i] || ''\<close> is the span,
  \<^verbatim>\<open>parts[i + 1] || ''\<close> the delimiter, which is missing after the last span.
\<close>

fun reconstruct :: "jsstring list \<Rightarrow> jsstring list" where
  "reconstruct [] = []"
| "reconstruct [sentence] =
     (let combinedSentence = sentence @ []
      in if trim combinedSentence \<noteq> [] then [combinedSentence] else [])"
| "reconstruct (sentence # delimiter # parts) =
     (let combinedSentence = sentence @ delimiter
      in (if trim combinedSentence \<noteq> [] then [combinedSentence] else [])
         @ reconstruct parts)"

definition splitIntoSentences :: "jsstring \<Rightarrow> jsstring option \<Rightarrow> js_error + jsstring list" where
  "splitIntoSentences text languageCode =
     (if \<not> supportsSentenceTranslation languageCode
      then Inr (if trim text \<noteq> [] then [text] else [])
      else case get_SENTENCE_DELIMITERS (the languageCode) of
             DelimiterArray delimiters \<Rightarrow>
               (let escapedDelimiters = map escapeDelimiter delimiters;
                    members = class_members (concat escapedDelimiters);
                    parts = split_capture (\<lambda>c. c \<in> set members) [] text;
                    sentences = reconstruct parts
                in Inr (filter (\<lambda>sentence. length (trim sentence) > 0) sentences))
           | _ \<Rightarrow> Inl TypeError)"

subsection \<open>updateTranslationSegments\<close>

record TranslationSegment =
  "text" :: jsstring
  needsTranslation :: bool
  translation :: "jsstring option"
  lastTranslatedText :: "jsstring option"
  requestTimestamp :: "nat option"

text \<open>\<^verbatim>\<open>array.map((element, index) => ...)\<close>, counting the index from \<open>i\<close>.\<close>

fun map_index :: "('a \<Rightarrow> nat \<Rightarrow> 'b) \<Rightarrow> nat \<Rightarrow> 'a list \<Rightarrow> 'b list" where
  "map_index f i [] = []"
| "map_index f i (x # xs) = f x i # map_index f (Suc i) xs"

text \<open>
  The callback of the \<^verbatim>\<open>map\<close>: \<^verbatim>\<open>existingSegments[index]\<close> is \<^verbatim>\<open>undefined\<close> past
  the end of the array; the spread \<^verbatim>\<open>{...existingSegment, text, needsTranslation}\<close>
  keeps the three other fields.
\<close>

definition updateSegment :: "TranslationSegment list \<Rightarrow> jsstring \<Rightarrow> nat \<Rightarrow> TranslationSegment" where
  "updateSegment existingSegments sentence index =
     (if length existingSegments \<le> index
      then \<lparr>text = sentence, needsTranslation = length (trim sentence) > 0,
            translation = None, lastTranslatedText = None, requestTimestamp = None\<rparr>
      else let existingSegment = existingSegments ! index
           in if text existingSegment = sentence then existingSegment
              else existingSegment\<lparr>text := sentence,
                     needsTranslation := length (trim sentence) > 0\<rparr>)"

definition updateTranslationSegments ::
  "jsstring \<Rightarrow> jsstring option \<Rightarrow> TranslationSegment list
     \<Rightarrow> js_error + TranslationSegment list" where
  "updateTranslationSegments newText languageCode existingSegments =
     (case splitIntoSentences newText languageCode of
        Inl e \<Rightarrow> Inl e
      | Inr newSentences \<Rightarrow>
          Inr (map_index (updateSegment existingSegments) 0 newSentences))"

section \<open>useRealtimeTranslation.ts\<close>

text \<open>
  What the awaited \<^verbatim>\<open>translate\<close> of \<^verbatim>\<open>useTranslationCore\<close> does is not decided by
  this code: it rejects, or it resolves to a string or to \<^verbatim>\<open>null\<close>.
\<close>

datatype translate_outcome = Rejects | Resolves "jsstring option"

datatype log_entry = Translation_failed | Failed_to_translate_sentence

text \<open>\<^verbatim>\<open>translateRealtime\<close>: the result and what it wrote to \<^verbatim>\<open>console.error\<close>.\<close>

definition translateRealtime ::
  "jsstring \<Rightarrow> translate_outcome \<Rightarrow> jsstring option \<times> log_entry list" where
  "translateRealtime sentence core =
     (if trim sentence = [] then (None, [])
      else case core of
             Resolves translated \<Rightarrow> (translated, [])
           | Rejects \<Rightarrow> (None, [Translation_failed]))"

section \<open>MeetingMinutesRealtimeTranslation.tsx\<close>

subsection \<open>getTranslationTarget\<close>

text \<open>\<^verbatim>\<open>!detectedLanguageCode\<close> holds for \<^verbatim>\<open>undefined\<close> and for the empty string.\<close>

definition falsy :: "jsstring option \<Rightarrow> bool" where
  "falsy v = (v = None \<or> v = Some [])"

definition getTranslationTarget ::
  "jsstring \<Rightarrow> jsstring option \<Rightarrow> jsstring \<Rightarrow> jsstring \<Rightarrow> jsstring" where
  "getTranslationTarget translationType detectedLanguageCode primaryLanguage secondaryLanguage =
     (if translationType \<noteq> js ''bidirectional'' \<or> falsy detectedLanguageCode
      then secondaryLanguage
      else if the detectedLanguageCode = primaryLanguage then secondaryLanguage
      else if the detectedLanguageCode = secondaryLanguage then primaryLanguage
      else secondaryLanguage)"

subsection \<open>The timeline and the component's state\<close>

datatype source = microphone | screen

text \<open>Of a \<^verbatim>\<open>Transcript\<close> the component reads these two fields.\<close>

record Transcript =
  transcript :: jsstring
  speakerLabel :: "jsstring option"

record RealtimeSegment =
  resultId :: jsstring
  source :: source
  startTime :: real
  endTime :: real
  isPartial :: bool
  transcripts :: "Transcript list"
  sessionId :: int
  languageCode :: "jsstring option"
  translationSegments :: "TranslationSegment list"

text \<open>
  The \<^verbatim>\<open>useState\<close> cells the translation core works on, and the console. Every setter
  replaces a cell's value by a new one; a \<^verbatim>\<open>Map\<close> is copied before it is changed.
\<close>

record component_state =
  realtimeSegments :: "RealtimeSegment list"
  currentSessionId :: int
  latestRequestTimestamps :: "jsstring \<rightharpoonup> nat"
  console_errors :: "log_entry list"

definition initial_state :: component_state where
  "initial_state = \<lparr>realtimeSegments = [], currentSessionId = 0,
     latestRequestTimestamps = Map.empty, console_errors = []\<rparr>"

subsection \<open>updateRealtimeSegments\<close>

text \<open>\<^verbatim>\<open>findIndex\<close> returns \<open>-1\<close> when no element satisfies the predicate.\<close>

fun findIndex_from :: "('a \<Rightarrow> bool) \<Rightarrow> int \<Rightarrow> 'a list \<Rightarrow> int" where
  "findIndex_from p i [] = - 1"
| "findIndex_from p i (x # xs) = (if p x then i else findIndex_from p (i + 1) xs)"

definition findIndex :: "('a \<Rightarrow> bool) \<Rightarrow> 'a list \<Rightarrow> int" where
  "findIndex p xs = findIndex_from p 0 xs"

fun join :: "jsstring \<Rightarrow> jsstring list \<Rightarrow> jsstring" where
  "join sep [] = []"
| "join sep [x] = x"
| "join sep (x # y # ys) = x @ sep @ join sep (y # ys)"

definition currentText :: "RealtimeSegment \<Rightarrow> jsstring" where
  "currentText newSegment = trim (join (js '' '') (map transcript (transcripts newSegment)))"

text \<open>
  The updater passed to \<^verbatim>\<open>setRealtimeSegments\<close>. When the splitter throws, the updater
  throws and no new list is produced.
\<close>

definition updateRealtimeSegments ::
  "RealtimeSegment list \<Rightarrow> RealtimeSegment \<Rightarrow> js_error + RealtimeSegment list" where
  "updateRealtimeSegments prev newSegment =
     (let existingIndex = findIndex (\<lambda>seg. resultId seg = resultId newSegment
                                          \<and> source seg = source newSegment) prev
      in if existingIndex \<ge> 0
         then let currentSegment = prev ! nat existingIndex
              in case updateTranslationSegments (currentText newSegment)
                        (languageCode newSegment) (translationSegments currentSegment) of
                   Inl e \<Rightarrow> Inl e
                 | Inr updatedTranslationSegments \<Rightarrow>
                     Inr (prev[nat existingIndex :=
                            newSegment\<lparr>translationSegments := updatedTranslationSegments\<rparr>])
         else case updateTranslationSegments (currentText newSegment)
                     (languageCode newSegment) [] of
                Inl e \<Rightarrow> Inl e
              | Inr ts \<Rightarrow> Inr (prev @ [newSegment\<lparr>translationSegments := ts\<rparr>]))"

text \<open>A run of upserts, one after the other; the first one that throws ends it.\<close>

fun updateRealtimeSegments_all ::
  "RealtimeSegment list \<Rightarrow> RealtimeSegment list \<Rightarrow> js_error + RealtimeSegment list" where
  "updateRealtimeSegments_all prev [] = Inr prev"
| "updateRealtimeSegments_all prev (u # us) =
     (case updateRealtimeSegments prev u of
        Inl e \<Rightarrow> Inl e
      | Inr next \<Rightarrow> updateRealtimeSegments_all next us)"

subsection \<open>translateSentence\<close>

definition requestId :: "RealtimeSegment \<Rightarrow> nat \<Rightarrow> jsstring" where
  "requestId segment sentenceIndex = resultId segment @ js ''-'' @ decimal sentenceIndex"

text \<open>
  One invocation of \<^verbatim>\<open>translateSentence\<close>: its three arguments, the value of
  \<^verbatim>\<open>Date.now()\<close> it read, and the \<^verbatim>\<open>latestRequestTimestamps\<close> of its closure. That
  variable is the \<^verbatim>\<open>const\<close> of the render in which \<^verbatim>\<open>useCallback\<close> made this function,
  so it is a value the map had no later than when the invocation began.
\<close>

record invocation =
  inv_segment :: RealtimeSegment
  inv_sentenceIndex :: nat
  inv_translationSegment :: TranslationSegment
  inv_requestTimestamp :: nat
  inv_latestRequestTimestamps :: "jsstring \<rightharpoonup> nat"

text \<open>Both \<^verbatim>\<open>setRealtimeSegments\<close> updaters walk the timeline the same way.\<close>

definition update_sentence ::
  "RealtimeSegment \<Rightarrow> nat \<Rightarrow> (TranslationSegment \<Rightarrow> TranslationSegment)
     \<Rightarrow> RealtimeSegment list \<Rightarrow> RealtimeSegment list" where
  "update_sentence segment sentenceIndex f prev =
     map (\<lambda>seg. if resultId seg \<noteq> resultId segment \<or> source seg \<noteq> source segment then seg
                else seg\<lparr>translationSegments :=
                       map_index (\<lambda>ts index. if index \<noteq> sentenceIndex then ts else f ts) 0
                         (translationSegments seg)\<rparr>) prev"

text \<open>Up to the \<^verbatim>\<open>await\<close>: the side index and the sentence get the request's time.\<close>

definition translateSentence_issue :: "component_state \<Rightarrow> invocation \<Rightarrow> component_state" where
  "translateSentence_issue st call =
     st\<lparr>latestRequestTimestamps :=
          (latestRequestTimestamps st)
            (requestId (inv_segment call) (inv_sentenceIndex call) \<mapsto> inv_requestTimestamp call),
        realtimeSegments :=
          update_sentence (inv_segment call) (inv_sentenceIndex call)
            (\<lambda>ts. ts\<lparr>requestTimestamp := Some (inv_requestTimestamp call)\<rparr>)
            (realtimeSegments st)\<rparr>"

text \<open>What the \<^verbatim>\<open>try\<close> block met: an exception, or the value \<^verbatim>\<open>translate\<close> resolved to.\<close>

datatype try_outcome = Thrown | Translated "jsstring option"

definition isLatestRequest :: "invocation \<Rightarrow> bool" where
  "isLatestRequest call =
     (case inv_latestRequestTimestamps call (requestId (inv_segment call) (inv_sentenceIndex call)) of
        None \<Rightarrow> True
      | Some currentLatestTimestamp \<Rightarrow>
          currentLatestTimestamp = 0 \<or> inv_requestTimestamp call \<ge> currentLatestTimestamp)"

text \<open>After the \<^verbatim>\<open>await\<close>, on the state as it is by then.\<close>

definition translateSentence_resolve ::
  "component_state \<Rightarrow> invocation \<Rightarrow> try_outcome \<Rightarrow> component_state" where
  "translateSentence_resolve st call outcome =
     (case outcome of
        Thrown \<Rightarrow> st\<lparr>console_errors := console_errors st @ [Failed_to_translate_sentence]\<rparr>
      | Translated result \<Rightarrow>
          if isLatestRequest call \<and> result \<noteq> None
          then st\<lparr>realtimeSegments :=
                 update_sentence (inv_segment call) (inv_sentenceIndex call)
                   (\<lambda>ts. ts\<lparr>translation := (if falsy result then None else result),
                            needsTranslation := (text ts \<noteq> text (inv_translationSegment call)),
                            lastTranslatedText := Some (text (inv_translationSegment call))\<rparr>)
                   (realtimeSegments st)\<rparr>
          else st)"

text \<open>
  The resolution with \<^verbatim>\<open>translate\<close> being \<^verbatim>\<open>translateRealtime\<close>, which catches what
  the core call throws.
\<close>

definition translateSentence_settle ::
  "component_state \<Rightarrow> invocation \<Rightarrow> translate_outcome \<Rightarrow> component_state" where
  "translateSentence_settle st call core =
     (let (result, logged) = translateRealtime (text (inv_translationSegment call)) core
      in translateSentence_resolve (st\<lparr>console_errors := console_errors st @ logged\<rparr>)
           call (Translated result))"

text \<open>The sentences the interval picks for translation in one timeline entry.\<close>

definition sentencesToTranslate :: "RealtimeSegment \<Rightarrow> TranslationSegment list" where
  "sentencesToTranslate segment =
     filter (\<lambda>translationSegment. needsTranslation translationSegment
                \<and> trim (text translationSegment) \<noteq> [])
       (translationSegments segment)"

subsection \<open>handleClear and the start of a recording\<close>

text \<open>
  \<^verbatim>\<open>handleClear\<close> calls \<^verbatim>\<open>setRealtimeSegments([])\<close> and \<^verbatim>\<open>setCurrentSessionId(0)\<close>; its
  other calls stop and clear the two transcription hooks.
\<close>

definition handleClear :: "component_state \<Rightarrow> component_state" where
  "handleClear st = st\<lparr>realtimeSegments := [], currentSessionId := 0\<rparr>"

definition onClickExecStartTranscription :: "component_state \<Rightarrow> component_state" where
  "onClickExecStartTranscription st = st\<lparr>currentSessionId := currentSessionId st + 1\<rparr>"

section \<open>A recording with one sentence and two requests for it\<close>

text \<open>
  One entry from the microphone whose text is one English sentence, still to be
  translated; the timeline that holds it is what the merger makes of the first update.
\<close>

definition pending_sentence :: TranslationSegment where
  "pending_sentence = \<lparr>text = js ''Hello.'', needsTranslation = True, translation = None,
     lastTranslatedText = None, requestTimestamp = None\<rparr>"

definition spoken_entry :: RealtimeSegment where
  "spoken_entry = \<lparr>resultId = js ''r'', source = microphone, startTime = 0, endTime = 1,
     isPartial = False, transcripts = [\<lparr>transcript = js ''Hello.'', speakerLabel = None\<rparr>],
     sessionId = 1, languageCode = Some en_US, translationSegments = [pending_sentence]\<rparr>"

definition recording :: component_state where
  "recording = initial_state\<lparr>realtimeSegments := [spoken_entry], currentSessionId := 1\<rparr>"

text \<open>
  Request R1 is issued at time 100 and request R2 at time 200, both for sentence 0 of
  the entry. Each closure holds the side index as it was when its invocation began,
  the latest value a closure can hold; R2 is given the entry as R1 left it.
\<close>

definition request_R1 :: invocation where
  "request_R1 = \<lparr>inv_segment = spoken_entry, inv_sentenceIndex = 0,
     inv_translationSegment = pending_sentence, inv_requestTimestamp = 100,
     inv_latestRequestTimestamps = latestRequestTimestamps recording\<rparr>"

definition after_R1 :: component_state where
  "after_R1 = translateSentence_issue recording request_R1"

definition request_R2 :: invocation where
  "request_R2 = \<lparr>inv_segment = realtimeSegments after_R1 ! 0, inv_sentenceIndex = 0,
     inv_translationSegment = translationSegments (realtimeSegments after_R1 ! 0) ! 0,
     inv_requestTimestamp = 200,
     inv_latestRequestTimestamps = latestRequestTimestamps after_R1\<rparr>"

definition after_R2 :: component_state where
  "after_R2 = translateSentence_issue after_R1 request_R2"

text \<open>
  Three updates as the transcription hooks deliver them: the entry when first heard,
  a revision of it in two transcripts, with white space before the first and after the
  second, and an entry of the screen audio that has the same result identifier.
\<close>

definition first_update :: RealtimeSegment where
  "first_update = spoken_entry\<lparr>translationSegments := []\<rparr>"

definition revised_update :: RealtimeSegment where
  "revised_update = first_update\<lparr>endTime := 2,
     transcripts := [\<lparr>transcript = js ''  Hello.'', speakerLabel = None\<rparr>,
                     \<lparr>transcript = js ''Bye. '', speakerLabel = Some (js ''spk_1'')\<rparr>]\<rparr>"

definition screen_update :: RealtimeSegment where
  "screen_update = first_update\<lparr>source := screen\<rparr>"

section \<open>The specification's wording\<close>

text \<open>
  The splitter as the specification words it: scan the text; at each delimiter close the
  span read so far, delimiter included; emit the remainder at the end; drop a span that
  is empty or white space only. \<open>cur\<close> is the span read so far.
\<close>

fun split_spec :: "(jschar \<Rightarrow> bool) \<Rightarrow> jsstring \<Rightarrow> jsstring \<Rightarrow> jsstring list" where
  "split_spec isDelimiter cur [] = (if trim cur = [] then [] else [cur])"
| "split_spec isDelimiter cur (c # cs) =
     (if isDelimiter c
      then (if trim (cur @ [c]) = [] then [] else [cur @ [c]]) @ split_spec isDelimiter [] cs
      else split_spec isDelimiter (cur @ [c]) cs)"

text \<open>The delimiter characters of a language of the table.\<close>

definition delimiter_chars :: "jsstring \<Rightarrow> jschar list" where
  "delimiter_chars lang = (case map_of SENTENCE_DELIMITERS lang of
                             None \<Rightarrow> [] | Some ds \<Rightarrow> concat ds)"

text \<open>The identity key of a timeline entry.\<close>

definition segment_key :: "RealtimeSegment \<Rightarrow> jsstring \<times> source" where
  "segment_key seg = (resultId seg, source seg)"

text \<open>
  \<open>supportsLanguage\<close> as the specification words it: a code matches a supported tag
  exactly, or else by its primary subtag, the part before the first hyphen.
\<close>

definition primary_subtag :: "jsstring \<Rightarrow> jsstring" where
  "primary_subtag c = takeWhile (\<lambda>x. x \<noteq> 0x2D) c"

definition supported_tags :: "jsstring list" where
  "supported_tags = map fst SENTENCE_DELIMITERS"

definition supportsLanguage_spec :: "jsstring option \<Rightarrow> bool" where
  "supportsLanguage_spec code =
     (case code of
        None \<Rightarrow> False
      | Some c \<Rightarrow> c \<in> set supported_tags
                 \<or> primary_subtag c \<in> set (map primary_subtag supported_tags))"

section \<open>Lemmas on lists\<close>

lemma length_map_index: "length (map_index f i xs) = length xs"
  by (induction xs arbitrary: i) simp_all

lemma nth_map_index: "j < length xs \<Longrightarrow> map_index f i xs ! j = f (xs ! j) (i + j)"
proof (induction xs arbitrary: i j)
  case Nil
  then show ?case by simp
next
  case (Cons x xs)
  then show ?case by (cases j) simp_all
qed

section \<open>The splitter: lemmas and claims\<close>

lemma reconstruct_split_capture:
  "reconstruct (split_capture m acc s) = split_spec m acc s"
  by (induction s arbitrary: acc) (simp_all add: Let_def)

lemma split_spec_nonblank: "x \<in> set (split_spec m acc s) \<Longrightarrow> trim x \<noteq> []"
  by (induction s arbitrary: acc) (auto split: if_splits)

lemma filter_split_spec:
  "filter (\<lambda>x. length (trim x) > 0) (split_spec m acc s) = split_spec m acc s"
  by (rule filter_True) (simp add: split_spec_nonblank)

lemma supports_ja_JP: "supportsSentenceTranslation (Some ja_JP)"
  by code_simp

lemma supports_en_US: "supportsSentenceTranslation (Some en_US)"
  by code_simp

lemma get_ja_JP: "get_SENTENCE_DELIMITERS ja_JP = DelimiterArray [[0x3002], [0x3F]]"
  by code_simp

lemma get_en_US: "get_SENTENCE_DELIMITERS en_US = DelimiterArray [[0x2E], [0x3F]]"
  by code_simp

lemma class_ja_JP: "class_members (concat (map escapeDelimiter [[0x3002], [0x3F]])) = [0x3002, 0x3F]"
  by code_simp

lemma class_en_US: "class_members (concat (map escapeDelimiter [[0x2E], [0x3F]])) = [0x2E, 0x3F]"
  by code_simp

lemma delimiter_chars_ja_JP: "delimiter_chars ja_JP = [0x3002, 0x3F]"
  by code_simp

lemma delimiter_chars_en_US: "delimiter_chars en_US = [0x2E, 0x3F]"
  by code_simp

lemma split_ja_JP:
  "splitIntoSentences t (Some ja_JP) = Inr (split_spec (\<lambda>c. c \<in> set (delimiter_chars ja_JP)) [] t)"
  by (simp only: splitIntoSentences_def supports_ja_JP get_ja_JP class_ja_JP Let_def option.sel
      property_value.case reconstruct_split_capture filter_split_spec not_True_eq_False if_False
      delimiter_chars_ja_JP)

lemma split_en_US:
  "splitIntoSentences t (Some en_US) = Inr (split_spec (\<lambda>c. c \<in> set (delimiter_chars en_US)) [] t)"
  by (simp only: splitIntoSentences_def supports_en_US get_en_US class_en_US Let_def option.sel
      property_value.case reconstruct_split_capture filter_split_spec not_True_eq_False if_False
      delimiter_chars_en_US)

lemma split_nonblank: "splitIntoSentences t l = Inr ss \<Longrightarrow> s \<in> set ss \<Longrightarrow> trim s \<noteq> []"
  by (auto simp: splitIntoSentences_def Let_def split: if_splits property_value.splits)

lemma split_unsupported:
  "\<not> supportsSentenceTranslation l \<Longrightarrow> splitIntoSentences t l = Inr (if trim t = [] then [] else [t])"
  by (simp add: splitIntoSentences_def)

text \<open>
  Claim C5. For the two supported languages the splitter is the scan of the
  specification: a span is closed at each delimiter of the language, the delimiter
  included, the remainder is emitted at the end, and blank spans are dropped. The
  Japanese greeting of the specification splits into its two sentences.
\<close>

theorem C5_split_supported:
  "(lang = ja_JP \<or> lang = en_US \<longrightarrow>
      splitIntoSentences t (Some lang)
        = Inr (split_spec (\<lambda>c. c \<in> set (delimiter_chars lang)) [] t))
   \<and> splitIntoSentences
        [0x3053, 0x3093, 0x306B, 0x3061, 0x306F, 0x3002,
         0x4ECA, 0x65E5, 0x306F, 0x6674, 0x308C, 0x3067, 0x3059, 0x3002] (Some ja_JP)
      = Inr [[0x3053, 0x3093, 0x306B, 0x3061, 0x306F, 0x3002],
             [0x4ECA, 0x65E5, 0x306F, 0x6674, 0x308C, 0x3067, 0x3059, 0x3002]]"
proof (intro conjI impI)
  assume "lang = ja_JP \<or> lang = en_US"
  then show "splitIntoSentences t (Some lang)
        = Inr (split_spec (\<lambda>c. c \<in> set (delimiter_chars lang)) [] t)"
    using split_ja_JP split_en_US by blast
next
  show "splitIntoSentences
        [0x3053, 0x3093, 0x306B, 0x3061, 0x306F, 0x3002,
         0x4ECA, 0x65E5, 0x306F, 0x6674, 0x308C, 0x3067, 0x3059, 0x3002] (Some ja_JP)
      = Inr [[0x3053, 0x3093, 0x306B, 0x3061, 0x306F, 0x3002],
             [0x4ECA, 0x65E5, 0x306F, 0x6674, 0x308C, 0x3067, 0x3059, 0x3002]]"
    by code_simp
qed

theorem C5_split_supported_witness:
  "(en_US = ja_JP \<or> en_US = en_US)
   \<and> splitIntoSentences (js ''Hi. You?  '') (Some en_US) = Inr [js ''Hi.'', js '' You?'']
   \<and> split_spec (\<lambda>c. c \<in> set (delimiter_chars en_US)) [] (js ''Hi. You?  '')
       = [js ''Hi.'', js '' You?'']"
proof -
  have h: "en_US = ja_JP \<or> en_US = en_US" by simp
  have e: "split_spec (\<lambda>c. c \<in> set (delimiter_chars en_US)) [] (js ''Hi. You?  '')
       = [js ''Hi.'', js '' You?'']" by code_simp
  from C5_split_supported [of en_US "js ''Hi. You?  ''"] h
  have "splitIntoSentences (js ''Hi. You?  '') (Some en_US)
        = Inr (split_spec (\<lambda>c. c \<in> set (delimiter_chars en_US)) [] (js ''Hi. You?  ''))"
    by blast
  with h e show ?thesis by simp
qed

text \<open>
  A text with white space at its ends, in a language that is not supported: the one
  segment returned is the text as it is, not the trimmed text.
\<close>

theorem C6_counterexample:
  "\<not> supportsSentenceTranslation (Some (js ''fr-FR''))
   \<and> splitIntoSentences (js '' Bonjour. '') (Some (js ''fr-FR'')) = Inr [js '' Bonjour. '']
   \<and> splitIntoSentences (js '' Bonjour. '') (Some (js ''fr-FR''))
        \<noteq> Inr [trim (js '' Bonjour. '')]"
  by code_simp

text \<open>
  Claim C6 (as amended). For an absent or unsupported language code the splitter
  returns the whole text, unchanged, as one segment when the text has a character that
  is not white space, and no segment when the text is empty or white space only. The
  French text of the specification comes back as one segment.
\<close>

theorem C6_split_unsupported:
  "(\<not> supportsSentenceTranslation lang \<longrightarrow>
      splitIntoSentences t lang = Inr (if trim t = [] then [] else [t]))
   \<and> \<not> supportsSentenceTranslation None
   \<and> \<not> supportsSentenceTranslation (Some (js ''fr-FR''))
   \<and> splitIntoSentences (js ''Bonjour. '' @ [0xC7] @ js ''a va?'') (Some (js ''fr-FR''))
       = Inr [js ''Bonjour. '' @ [0xC7] @ js ''a va?'']"
proof (intro conjI impI)
  assume "\<not> supportsSentenceTranslation lang"
  then show "splitIntoSentences t lang = Inr (if trim t = [] then [] else [t])"
    by (rule split_unsupported)
next
  show "\<not> supportsSentenceTranslation None" by code_simp
next
  show "\<not> supportsSentenceTranslation (Some (js ''fr-FR''))" by code_simp
next
  show "splitIntoSentences (js ''Bonjour. '' @ [0xC7] @ js ''a va?'') (Some (js ''fr-FR''))
       = Inr [js ''Bonjour. '' @ [0xC7] @ js ''a va?'']" by code_simp
qed

theorem C6_split_unsupported_witness:
  "\<not> supportsSentenceTranslation None
   \<and> splitIntoSentences (js ''  a. b  '') None = Inr [js ''  a. b  '']
   \<and> splitIntoSentences (js ''   '') None = Inr []
   \<and> splitIntoSentences [] None = Inr []"
proof -
  have h: "\<not> supportsSentenceTranslation None" by code_simp
  have t1: "trim (js ''  a. b  '') \<noteq> []" by code_simp
  have t2: "trim (js ''   '') = []" by code_simp
  have t3: "trim [] = []" by code_simp
  from C6_split_unsupported [of None "js ''  a. b  ''"] h t1
  have a: "splitIntoSentences (js ''  a. b  '') None = Inr [js ''  a. b  '']" by simp
  from C6_split_unsupported [of None "js ''   ''"] h t2
  have b: "splitIntoSentences (js ''   '') None = Inr []" by simp
  from C6_split_unsupported [of None "[]"] h t3
  have c: "splitIntoSentences [] None = Inr []" by simp
  from h a b c show ?thesis by blast
qed

subsection \<open>supportsSentenceTranslation\<close>

lemma supports_iff:
  "supportsSentenceTranslation (Some c)
     = (c = ja_JP \<or> c = en_US \<or> c \<in> set Object_prototype_keys)"
  by (auto simp: supportsSentenceTranslation_def in_SENTENCE_DELIMITERS_def SENTENCE_DELIMITERS_def)

text \<open>
  The code \<open>en-GB\<close> has the primary subtag of the supported \<open>en-US\<close>, so the
  specification's wording accepts it; the code refuses it.
\<close>

theorem C10_counterexample:
  "supportsLanguage_spec (Some (js ''en-GB''))
   \<and> \<not> supportsSentenceTranslation (Some (js ''en-GB''))"
  by code_simp

text \<open>
  Claim C10 (as amended). There is no fallback to the primary subtag: a code that is
  not the name of a property inherited from \<^verbatim>\<open>Object.prototype\<close> is supported exactly
  when it is \<open>ja-JP\<close> or \<open>en-US\<close>; both tags are supported; an absent code is not.
\<close>

theorem C10_supports_exact:
  "(c \<notin> set Object_prototype_keys \<longrightarrow>
      supportsSentenceTranslation (Some c) = (c = ja_JP \<or> c = en_US))
   \<and> supportsSentenceTranslation (Some ja_JP)
   \<and> supportsSentenceTranslation (Some en_US)
   \<and> \<not> supportsSentenceTranslation None"
proof (intro conjI impI)
  assume "c \<notin> set Object_prototype_keys"
  then show "supportsSentenceTranslation (Some c) = (c = ja_JP \<or> c = en_US)"
    by (simp add: supports_iff)
next
  show "supportsSentenceTranslation (Some ja_JP)" by (rule supports_ja_JP)
next
  show "supportsSentenceTranslation (Some en_US)" by (rule supports_en_US)
next
  show "\<not> supportsSentenceTranslation None" by (simp add: supportsSentenceTranslation_def)
qed

theorem C10_supports_exact_witness:
  "js ''en-GB'' \<notin> set Object_prototype_keys
   \<and> js ''en-GB'' \<noteq> ja_JP \<and> js ''en-GB'' \<noteq> en_US
   \<and> \<not> supportsSentenceTranslation (Some (js ''en-GB''))"
proof -
  have h: "js ''en-GB'' \<notin> set Object_prototype_keys" by code_simp
  have n: "js ''en-GB'' \<noteq> ja_JP \<and> js ''en-GB'' \<noteq> en_US" by code_simp
  from C10_supports_exact [of "js ''en-GB''"] h n
  have "\<not> supportsSentenceTranslation (Some (js ''en-GB''))" by blast
  with h n show ?thesis by blast
qed

text \<open>
  An inherited property name passes the \<^verbatim>\<open>in\<close> test, and the splitter then throws:
  the value read from the table has no \<^verbatim>\<open>map\<close> method.
\<close>

lemma supports_inherited_key:
  "supportsSentenceTranslation (Some (js ''toString''))
   \<and> splitIntoSentences (js ''Hello.'') (Some (js ''toString'')) = Inl TypeError"
  by code_simp

section \<open>The reconciler: lemmas and claims\<close>

lemma map_index_updateSegment_same:
  "map_index (updateSegment prev) 0 (map text prev) = prev"
proof (rule nth_equalityI)
  show "length (map_index (updateSegment prev) 0 (map text prev)) = length prev"
    by (simp add: length_map_index)
next
  fix i
  assume "i < length (map_index (updateSegment prev) 0 (map text prev))"
  then have i: "i < length prev" by (simp add: length_map_index)
  then show "map_index (updateSegment prev) 0 (map text prev) ! i = prev ! i"
    by (simp add: nth_map_index updateSegment_def)
qed

text \<open>
  Claim C4. When the new text splits into exactly the texts of the previous segments,
  the reconciler returns the previous segments, each record unchanged.
\<close>

theorem C4_reconcile_stable:
  "splitIntoSentences newText lang = Inr (map text prev)
   \<Longrightarrow> updateTranslationSegments newText lang prev = Inr prev"
  by (simp add: updateTranslationSegments_def map_index_updateSegment_same)

theorem C4_reconcile_stable_witness:
  "splitIntoSentences (js ''A. B.'') (Some en_US)
     = Inr (map text
         [\<lparr>text = js ''A.'', needsTranslation = False, translation = Some (js ''x''),
            lastTranslatedText = Some (js ''A.''), requestTimestamp = Some 100\<rparr>,
          \<lparr>text = js '' B.'', needsTranslation = True, translation = None,
            lastTranslatedText = None, requestTimestamp = Some 200\<rparr>])
   \<and> updateTranslationSegments (js ''A. B.'') (Some en_US)
         [\<lparr>text = js ''A.'', needsTranslation = False, translation = Some (js ''x''),
            lastTranslatedText = Some (js ''A.''), requestTimestamp = Some 100\<rparr>,
          \<lparr>text = js '' B.'', needsTranslation = True, translation = None,
            lastTranslatedText = None, requestTimestamp = Some 200\<rparr>]
     = Inr [\<lparr>text = js ''A.'', needsTranslation = False, translation = Some (js ''x''),
            lastTranslatedText = Some (js ''A.''), requestTimestamp = Some 100\<rparr>,
          \<lparr>text = js '' B.'', needsTranslation = True, translation = None,
            lastTranslatedText = None, requestTimestamp = Some 200\<rparr>]"
proof -
  have h: "splitIntoSentences (js ''A. B.'') (Some en_US)
     = Inr (map text
         [\<lparr>text = js ''A.'', needsTranslation = False, translation = Some (js ''x''),
            lastTranslatedText = Some (js ''A.''), requestTimestamp = Some 100\<rparr>,
          \<lparr>text = js '' B.'', needsTranslation = True, translation = None,
            lastTranslatedText = None, requestTimestamp = Some 200\<rparr>])"
    by code_simp
  show ?thesis
    by (rule conjI [OF h C4_reconcile_stable [OF h]])
qed

lemma updateSegment_changed:
  "i < length prev \<Longrightarrow> text (prev ! i) \<noteq> s \<Longrightarrow> trim s \<noteq> []
   \<Longrightarrow> updateSegment prev s i = (prev ! i)\<lparr>text := s, needsTranslation := True\<rparr>"
  by (simp add: updateSegment_def)

text \<open>
  The example of the specification, in English: the second sentence of \<open>A. C.\<close> keeps
  the space that follows the first full stop, so its text is not \<open>C.\<close>.
\<close>

theorem C2_counterexample:
  "updateTranslationSegments (js ''A. C.'') (Some en_US)
     [\<lparr>text = js ''A.'', needsTranslation = False, translation = Some (js ''x''),
        lastTranslatedText = None, requestTimestamp = None\<rparr>,
      \<lparr>text = js ''B.'', needsTranslation = False, translation = Some (js ''y''),
        lastTranslatedText = None, requestTimestamp = None\<rparr>]
   = Inr [\<lparr>text = js ''A.'', needsTranslation = False, translation = Some (js ''x''),
            lastTranslatedText = None, requestTimestamp = None\<rparr>,
          \<lparr>text = js '' C.'', needsTranslation = True, translation = Some (js ''y''),
            lastTranslatedText = None, requestTimestamp = None\<rparr>]
   \<and> js '' C.'' \<noteq> js ''C.''"
  by code_simp

text \<open>
  Claim C2 (as amended). Where the new sentence at an index differs from the previous
  segment's text, the result at that index is the previous record with the text set to
  the new sentence and needsTranslation set to true; translation, lastTranslatedText
  and requestTimestamp are kept. In the example, in English, index 0 is untouched and
  index 1 has needsTranslation true, the old translation \<open>y\<close>, and the text \<open> C.\<close>
  with its leading space.
\<close>

theorem C2_reconcile_changed:
  "(splitIntoSentences newText lang = Inr ss \<and> i < length ss \<and> i < length prev
      \<and> text (prev ! i) \<noteq> ss ! i \<longrightarrow>
    (\<exists>rs. updateTranslationSegments newText lang prev = Inr rs
        \<and> length rs = length ss
        \<and> rs ! i = (prev ! i)\<lparr>text := ss ! i, needsTranslation := True\<rparr>
        \<and> translation (rs ! i) = translation (prev ! i)
        \<and> lastTranslatedText (rs ! i) = lastTranslatedText (prev ! i)
        \<and> requestTimestamp (rs ! i) = requestTimestamp (prev ! i)))
   \<and> updateTranslationSegments (js ''A. C.'') (Some en_US)
       [\<lparr>text = js ''A.'', needsTranslation = False, translation = Some (js ''x''),
          lastTranslatedText = None, requestTimestamp = None\<rparr>,
        \<lparr>text = js ''B.'', needsTranslation = False, translation = Some (js ''y''),
          lastTranslatedText = None, requestTimestamp = None\<rparr>]
     = Inr [\<lparr>text = js ''A.'', needsTranslation = False, translation = Some (js ''x''),
              lastTranslatedText = None, requestTimestamp = None\<rparr>,
            \<lparr>text = js '' C.'', needsTranslation = True, translation = Some (js ''y''),
              lastTranslatedText = None, requestTimestamp = None\<rparr>]"
proof (intro conjI impI)
  assume a: "splitIntoSentences newText lang = Inr ss \<and> i < length ss \<and> i < length prev
      \<and> text (prev ! i) \<noteq> ss ! i"
  then have "ss ! i \<in> set ss" by simp
  with a have nb: "trim (ss ! i) \<noteq> []" using split_nonblank by blast
  let ?rs = "map_index (updateSegment prev) 0 ss"
  have r: "updateTranslationSegments newText lang prev = Inr ?rs"
    using a by (simp add: updateTranslationSegments_def)
  have l: "length ?rs = length ss" by (simp add: length_map_index)
  have e: "?rs ! i = (prev ! i)\<lparr>text := ss ! i, needsTranslation := True\<rparr>"
    using a nb by (simp add: nth_map_index updateSegment_changed)
  from r l e show "\<exists>rs. updateTranslationSegments newText lang prev = Inr rs
        \<and> length rs = length ss
        \<and> rs ! i = (prev ! i)\<lparr>text := ss ! i, needsTranslation := True\<rparr>
        \<and> translation (rs ! i) = translation (prev ! i)
        \<and> lastTranslatedText (rs ! i) = lastTranslatedText (prev ! i)
        \<and> requestTimestamp (rs ! i) = requestTimestamp (prev ! i)"
    by simp
next
  show "updateTranslationSegments (js ''A. C.'') (Some en_US)
       [\<lparr>text = js ''A.'', needsTranslation = False, translation = Some (js ''x''),
          lastTranslatedText = None, requestTimestamp = None\<rparr>,
        \<lparr>text = js ''B.'', needsTranslation = False, translation = Some (js ''y''),
          lastTranslatedText = None, requestTimestamp = None\<rparr>]
     = Inr [\<lparr>text = js ''A.'', needsTranslation = False, translation = Some (js ''x''),
              lastTranslatedText = None, requestTimestamp = None\<rparr>,
            \<lparr>text = js '' C.'', needsTranslation = True, translation = Some (js ''y''),
              lastTranslatedText = None, requestTimestamp = None\<rparr>]"
    by code_simp
qed

theorem C2_reconcile_changed_witness:
  "splitIntoSentences (js ''A.C.'') (Some en_US) = Inr [js ''A.'', js ''C.'']
   \<and> (\<exists>rs. updateTranslationSegments (js ''A.C.'') (Some en_US)
         [\<lparr>text = js ''A.'', needsTranslation = False, translation = Some (js ''x''),
            lastTranslatedText = None, requestTimestamp = None\<rparr>,
          \<lparr>text = js ''B.'', needsTranslation = False, translation = Some (js ''y''),
            lastTranslatedText = None, requestTimestamp = None\<rparr>] = Inr rs
        \<and> rs ! 1 = \<lparr>text = js ''C.'', needsTranslation = True, translation = Some (js ''y''),
            lastTranslatedText = None, requestTimestamp = None\<rparr>)"
proof -
  let ?prev = "[\<lparr>text = js ''A.'', needsTranslation = False, translation = Some (js ''x''),
            lastTranslatedText = None, requestTimestamp = None\<rparr>,
          \<lparr>text = js ''B.'', needsTranslation = False, translation = Some (js ''y''),
            lastTranslatedText = None, requestTimestamp = None\<rparr>]"
  have h: "splitIntoSentences (js ''A.C.'') (Some en_US) = Inr [js ''A.'', js ''C.'']"
    by code_simp
  have d: "text (?prev ! 1) \<noteq> [js ''A.'', js ''C.''] ! 1" by code_simp
  have "splitIntoSentences (js ''A.C.'') (Some en_US) = Inr [js ''A.'', js ''C.'']
      \<and> 1 < length [js ''A.'', js ''C.''] \<and> 1 < length ?prev
      \<and> text (?prev ! 1) \<noteq> [js ''A.'', js ''C.''] ! 1"
    using h d by simp
  with C2_reconcile_changed [of "js ''A.C.''" "Some en_US" "[js ''A.'', js ''C.'']" 1 ?prev]
  obtain rs where "updateTranslationSegments (js ''A.C.'') (Some en_US) ?prev = Inr rs"
    and "rs ! 1 = (?prev ! 1)\<lparr>text := [js ''A.'', js ''C.''] ! 1, needsTranslation := True\<rparr>"
    by blast
  then have "updateTranslationSegments (js ''A.C.'') (Some en_US) ?prev = Inr rs
      \<and> rs ! 1 = \<lparr>text = js ''C.'', needsTranslation = True, translation = Some (js ''y''),
            lastTranslatedText = None, requestTimestamp = None\<rparr>"
    by simp
  with h show ?thesis by blast
qed

text \<open>
  In Japanese and with no language the same text is one sentence, and index 0 changes.
\<close>

lemma reconcile_example_other_languages:
  "updateTranslationSegments (js ''A. C.'') (Some ja_JP)
     [\<lparr>text = js ''A.'', needsTranslation = False, translation = Some (js ''x''),
        lastTranslatedText = None, requestTimestamp = None\<rparr>,
      \<lparr>text = js ''B.'', needsTranslation = False, translation = Some (js ''y''),
        lastTranslatedText = None, requestTimestamp = None\<rparr>]
   = Inr [\<lparr>text = js ''A. C.'', needsTranslation = True, translation = Some (js ''x''),
            lastTranslatedText = None, requestTimestamp = None\<rparr>]
   \<and> updateTranslationSegments (js ''A. C.'') None
     [\<lparr>text = js ''A.'', needsTranslation = False, translation = Some (js ''x''),
        lastTranslatedText = None, requestTimestamp = None\<rparr>,
      \<lparr>text = js ''B.'', needsTranslation = False, translation = Some (js ''y''),
        lastTranslatedText = None, requestTimestamp = None\<rparr>]
   = Inr [\<lparr>text = js ''A. C.'', needsTranslation = True, translation = Some (js ''x''),
            lastTranslatedText = None, requestTimestamp = None\<rparr>]"
  by code_simp

section \<open>The translation target: claims\<close>

text \<open>
  Claim C7. In bidirectional mode the target is the secondary language when the detected
  language is the primary one, the primary language when the detected language is the
  secondary one, and the secondary language otherwise, also when no language is
  detected; in any other mode it is the secondary language whatever was detected. With
  primary \<open>en-US\<close> and secondary \<open>ja-JP\<close>: \<open>en-US\<close> gives \<open>ja-JP\<close>, \<open>ja-JP\<close> gives
  \<open>en-US\<close>, \<open>fr-FR\<close> gives \<open>ja-JP\<close>. A detected language is a code that is not empty:
  the code reads the empty string as no detection.
\<close>

theorem C7_translation_target:
  "getTranslationTarget (js ''bidirectional'') (Some p) p s = s
   \<and> (s \<noteq> [] \<longrightarrow> getTranslationTarget (js ''bidirectional'') (Some s) p s = p)
   \<and> (d \<noteq> p \<and> d \<noteq> s \<longrightarrow> getTranslationTarget (js ''bidirectional'') (Some d) p s = s)
   \<and> getTranslationTarget (js ''bidirectional'') None p s = s
   \<and> (translationType \<noteq> js ''bidirectional'' \<longrightarrow>
        getTranslationTarget translationType detected p s = s)
   \<and> getTranslationTarget (js ''unidirectional'') detected p s = s
   \<and> getTranslationTarget (js ''bidirectional'') (Some en_US) en_US ja_JP = ja_JP
   \<and> getTranslationTarget (js ''bidirectional'') (Some ja_JP) en_US ja_JP = en_US
   \<and> getTranslationTarget (js ''bidirectional'') (Some (js ''fr-FR'')) en_US ja_JP = ja_JP"
proof -
  have u: "js ''unidirectional'' \<noteq> js ''bidirectional''" by code_simp
  have e1: "getTranslationTarget (js ''bidirectional'') (Some en_US) en_US ja_JP = ja_JP"
    by code_simp
  have e2: "getTranslationTarget (js ''bidirectional'') (Some ja_JP) en_US ja_JP = en_US"
    by code_simp
  have e3: "getTranslationTarget (js ''bidirectional'') (Some (js ''fr-FR'')) en_US ja_JP = ja_JP"
    by code_simp
  show ?thesis
    using u e1 e2 e3 by (simp add: getTranslationTarget_def falsy_def)
qed

theorem C7_translation_target_witness:
  "ja_JP \<noteq> []
   \<and> getTranslationTarget (js ''bidirectional'') (Some ja_JP) (js ''ko-KR'') ja_JP = js ''ko-KR''
   \<and> js ''th-TH'' \<noteq> js ''ko-KR'' \<and> js ''th-TH'' \<noteq> ja_JP
   \<and> getTranslationTarget (js ''bidirectional'') (Some (js ''th-TH'')) (js ''ko-KR'') ja_JP = ja_JP
   \<and> js ''other'' \<noteq> js ''bidirectional''
   \<and> getTranslationTarget (js ''other'') (Some (js ''ko-KR'')) (js ''ko-KR'') ja_JP = ja_JP"
proof -
  have a: "ja_JP \<noteq> []" by code_simp
  have b: "js ''th-TH'' \<noteq> js ''ko-KR'' \<and> js ''th-TH'' \<noteq> ja_JP" by code_simp
  have c: "js ''other'' \<noteq> js ''bidirectional''" by code_simp
  note t = C7_translation_target [of "js ''ko-KR''" ja_JP "js ''th-TH''" "js ''other''"
      "Some (js ''ko-KR'')"]
  from t a have 1: "getTranslationTarget (js ''bidirectional'') (Some ja_JP) (js ''ko-KR'') ja_JP = js ''ko-KR''"
    by blast
  from t b have 2: "getTranslationTarget (js ''bidirectional'') (Some (js ''th-TH'')) (js ''ko-KR'') ja_JP = ja_JP"
    by blast
  from t c have 3: "getTranslationTarget (js ''other'') (Some (js ''ko-KR'')) (js ''ko-KR'') ja_JP = ja_JP"
    by blast
  from a b c 1 2 3 show ?thesis by blast
qed

text \<open>The empty code counts as no detection, also when it is the secondary language.\<close>

lemma target_empty_code:
  "getTranslationTarget (js ''bidirectional'') (Some []) en_US [] = []"
  by code_simp

section \<open>Clearing: claims\<close>

text \<open>
  After request R1 was issued the side index holds its time; clearing empties the
  timeline and leaves that entry of the side index where it was.
\<close>

theorem C8_counterexample:
  "realtimeSegments (handleClear after_R1) = []
   \<and> currentSessionId (handleClear after_R1) = 0
   \<and> latestRequestTimestamps (handleClear after_R1) (js ''r-0'') = Some 100
   \<and> latestRequestTimestamps (handleClear after_R1) \<noteq> Map.empty"
proof -
  have a: "realtimeSegments (handleClear after_R1) = []
   \<and> currentSessionId (handleClear after_R1) = 0
   \<and> latestRequestTimestamps (handleClear after_R1) (js ''r-0'') = Some 100"
    by code_simp
  then have "latestRequestTimestamps (handleClear after_R1) \<noteq> Map.empty"
    by (metis option.distinct(1))
  with a show ?thesis by blast
qed

text \<open>
  Claim C8 (as amended). After the clear operation the timeline is empty and the
  session identifier is 0; the side index of request times is what it was before.
\<close>

theorem C8_clear:
  "realtimeSegments (handleClear st) = []
   \<and> currentSessionId (handleClear st) = 0
   \<and> latestRequestTimestamps (handleClear st) = latestRequestTimestamps st
   \<and> console_errors (handleClear st) = console_errors st"
  by (simp add: handleClear_def)

section \<open>Translation requests: lemmas and claims\<close>

lemma resolve_null: "translateSentence_resolve st call (Translated None) = st"
  by (simp add: translateSentence_resolve_def)

lemma settle_failure:
  "core = Rejects \<or> core = Resolves None \<Longrightarrow>
   translateSentence_settle st call core
     = st\<lparr>console_errors := console_errors st
            @ snd (translateRealtime (text (inv_translationSegment call)) core)\<rparr>"
  by (auto simp: translateSentence_settle_def translateRealtime_def resolve_null)

lemma map_index_requestTimestamp:
  "map (\<lambda>ts. ts\<lparr>requestTimestamp := None\<rparr>)
     (map_index (\<lambda>ts index. if index \<noteq> k then ts else ts\<lparr>requestTimestamp := Some n\<rparr>) i xs)
   = map (\<lambda>ts. ts\<lparr>requestTimestamp := None\<rparr>) xs"
  by (induction xs arbitrary: i) simp_all

lemma issue_keeps_sentences:
  "map (\<lambda>seg. map (\<lambda>ts. ts\<lparr>requestTimestamp := None\<rparr>) (translationSegments seg))
     (realtimeSegments (translateSentence_issue st call))
   = map (\<lambda>seg. map (\<lambda>ts. ts\<lparr>requestTimestamp := None\<rparr>) (translationSegments seg))
       (realtimeSegments st)"
  by (simp add: translateSentence_issue_def update_sentence_def map_index_requestTimestamp)

text \<open>
  The translation call of request R1 resolves to null: the sentence is left as it was,
  and nothing is written to the log.
\<close>

theorem C9_counterexample:
  "console_errors after_R1 = []
   \<and> console_errors (translateSentence_settle after_R1 request_R1 (Resolves None)) = []
   \<and> realtimeSegments (translateSentence_settle after_R1 request_R1 (Resolves None))
       = [spoken_entry\<lparr>translationSegments :=
            [pending_sentence\<lparr>requestTimestamp := Some 100\<rparr>]\<rparr>]"
  by code_simp

text \<open>
  Claim C9 (as amended). When the translation call fails, by rejecting or by resolving
  to null, the resolution changes no timeline entry and no request time: every sentence
  keeps its translation, lastTranslatedText and needsTranslation, and a sentence that
  was picked for translation is picked again at the next tick. A rejection adds one
  entry to the log and changes nothing else; a null adds no entry to the log. An
  exception in the \<^verbatim>\<open>try\<close> block adds one entry and changes nothing else. Issuing
  the request changed only requestTimestamp.
\<close>

theorem C9_failure_keeps_state:
  "(core = Rejects \<or> core = Resolves None \<longrightarrow>
      realtimeSegments (translateSentence_settle st call core) = realtimeSegments st
      \<and> latestRequestTimestamps (translateSentence_settle st call core)
          = latestRequestTimestamps st
      \<and> currentSessionId (translateSentence_settle st call core) = currentSessionId st
      \<and> console_errors (translateSentence_settle st call core)
          = console_errors st
            @ (if core = Rejects \<and> trim (text (inv_translationSegment call)) \<noteq> []
               then [Translation_failed] else [])
      \<and> (\<forall>seg \<in> set (realtimeSegments st). \<forall>ts \<in> set (translationSegments seg).
            needsTranslation ts \<and> trim (text ts) \<noteq> [] \<longrightarrow>
              seg \<in> set (realtimeSegments (translateSentence_settle st call core))
              \<and> ts \<in> set (sentencesToTranslate seg)))
   \<and> realtimeSegments (translateSentence_resolve st call Thrown) = realtimeSegments st
   \<and> latestRequestTimestamps (translateSentence_resolve st call Thrown)
       = latestRequestTimestamps st
   \<and> console_errors (translateSentence_resolve st call Thrown)
       = console_errors st @ [Failed_to_translate_sentence]
   \<and> map (\<lambda>seg. map (\<lambda>ts. ts\<lparr>requestTimestamp := None\<rparr>) (translationSegments seg))
       (realtimeSegments (translateSentence_issue st call))
     = map (\<lambda>seg. map (\<lambda>ts. ts\<lparr>requestTimestamp := None\<rparr>) (translationSegments seg))
         (realtimeSegments st)"
proof (intro conjI impI)
  assume f: "core = Rejects \<or> core = Resolves None"
  note s = settle_failure [OF f, of st call]
  show "realtimeSegments (translateSentence_settle st call core) = realtimeSegments st"
    by (simp add: s)
  show "latestRequestTimestamps (translateSentence_settle st call core)
          = latestRequestTimestamps st"
    by (simp add: s)
  show "currentSessionId (translateSentence_settle st call core) = currentSessionId st"
    by (simp add: s)
  show "console_errors (translateSentence_settle st call core)
          = console_errors st
            @ (if core = Rejects \<and> trim (text (inv_translationSegment call)) \<noteq> []
               then [Translation_failed] else [])"
    using f by (auto simp: s translateRealtime_def)
  show "\<forall>seg \<in> set (realtimeSegments st). \<forall>ts \<in> set (translationSegments seg).
            needsTranslation ts \<and> trim (text ts) \<noteq> [] \<longrightarrow>
              seg \<in> set (realtimeSegments (translateSentence_settle st call core))
              \<and> ts \<in> set (sentencesToTranslate seg)"
    by (simp add: s sentencesToTranslate_def)
next
  show "realtimeSegments (translateSentence_resolve st call Thrown) = realtimeSegments st"
    by (simp add: translateSentence_resolve_def)
  show "latestRequestTimestamps (translateSentence_resolve st call Thrown)
       = latestRequestTimestamps st"
    by (simp add: translateSentence_resolve_def)
  show "console_errors (translateSentence_resolve st call Thrown)
       = console_errors st @ [Failed_to_translate_sentence]"
    by (simp add: translateSentence_resolve_def)
  show "map (\<lambda>seg. map (\<lambda>ts. ts\<lparr>requestTimestamp := None\<rparr>) (translationSegments seg))
       (realtimeSegments (translateSentence_issue st call))
     = map (\<lambda>seg. map (\<lambda>ts. ts\<lparr>requestTimestamp := None\<rparr>) (translationSegments seg))
         (realtimeSegments st)"
    by (rule issue_keeps_sentences)
qed



theorem C9_failure_keeps_state_witness:
  "(Rejects = Rejects \<or> Rejects = Resolves None)
   \<and> realtimeSegments (translateSentence_settle after_R1 request_R1 Rejects)
       = realtimeSegments after_R1
   \<and> console_errors (translateSentence_settle after_R1 request_R1 Rejects)
       = [Translation_failed]
   \<and> (Resolves None = Rejects \<or> Resolves None = Resolves None)
   \<and> realtimeSegments (translateSentence_settle after_R1 request_R1 (Resolves None))
       = realtimeSegments after_R1
   \<and> console_errors (translateSentence_settle after_R1 request_R1 (Resolves None)) = []
   \<and> realtimeSegments after_R1
       = [spoken_entry\<lparr>translationSegments :=
            [pending_sentence\<lparr>requestTimestamp := Some 100\<rparr>]\<rparr>]
   \<and> needsTranslation (pending_sentence\<lparr>requestTimestamp := Some 100\<rparr>)
   \<and> pending_sentence\<lparr>requestTimestamp := Some 100\<rparr>
       \<in> set (sentencesToTranslate
                (spoken_entry\<lparr>translationSegments :=
                   [pending_sentence\<lparr>requestTimestamp := Some 100\<rparr>]\<rparr>))
   \<and> spoken_entry\<lparr>translationSegments :=
         [pending_sentence\<lparr>requestTimestamp := Some 100\<rparr>]\<rparr>
       \<in> set (realtimeSegments (translateSentence_settle after_R1 request_R1 (Resolves None)))"
proof -
  let ?ts = "pending_sentence\<lparr>requestTimestamp := Some 100\<rparr>"
  let ?seg = "spoken_entry\<lparr>translationSegments := [?ts]\<rparr>"
  have h: "Rejects = Rejects \<or> Rejects = Resolves None" by simp
  have h': "Resolves None = Rejects \<or> Resolves None = Resolves None" by simp
  have a: "realtimeSegments after_R1 = [?seg]" by code_simp
  have l: "console_errors after_R1 = []" by code_simp
  have b: "trim (text (inv_translationSegment request_R1)) \<noteq> []" by code_simp
  have n: "needsTranslation ?ts \<and> trim (text ?ts) \<noteq> []" by code_simp
  note t = C9_failure_keeps_state [of Rejects after_R1 request_R1]
  note t' = C9_failure_keeps_state [of "Resolves None" after_R1 request_R1]
  from t h have 1: "realtimeSegments (translateSentence_settle after_R1 request_R1 Rejects)
       = realtimeSegments after_R1"
    by blast
  from t h have "console_errors (translateSentence_settle after_R1 request_R1 Rejects)
       = console_errors after_R1
         @ (if Rejects = Rejects \<and> trim (text (inv_translationSegment request_R1)) \<noteq> []
            then [Translation_failed] else [])"
    by blast
  with l b have 2: "console_errors (translateSentence_settle after_R1 request_R1 Rejects)
       = [Translation_failed]"
    by simp
  from t' h' have 4: "realtimeSegments (translateSentence_settle after_R1 request_R1 (Resolves None))
       = realtimeSegments after_R1"
    by blast
  from t' h' have "console_errors (translateSentence_settle after_R1 request_R1 (Resolves None))
       = console_errors after_R1
         @ (if Resolves None = Rejects \<and> trim (text (inv_translationSegment request_R1)) \<noteq> []
            then [Translation_failed] else [])"
    by blast
  with l have 5: "console_errors (translateSentence_settle after_R1 request_R1 (Resolves None)) = []"
    by simp
  from t' h' have "\<forall>seg \<in> set (realtimeSegments after_R1). \<forall>ts \<in> set (translationSegments seg).
            needsTranslation ts \<and> trim (text ts) \<noteq> [] \<longrightarrow>
              seg \<in> set (realtimeSegments (translateSentence_settle after_R1 request_R1 (Resolves None)))
              \<and> ts \<in> set (sentencesToTranslate seg)"
    by blast
  then have "\<forall>ts \<in> set (translationSegments ?seg).
            needsTranslation ts \<and> trim (text ts) \<noteq> [] \<longrightarrow>
              ?seg \<in> set (realtimeSegments (translateSentence_settle after_R1 request_R1 (Resolves None)))
              \<and> ts \<in> set (sentencesToTranslate ?seg)"
    by (simp add: a)
  with n have 3: "?ts \<in> set (sentencesToTranslate ?seg)
      \<and> ?seg \<in> set (realtimeSegments (translateSentence_settle after_R1 request_R1 (Resolves None)))"
    by simp
  from h h' 1 2 4 5 a n 3 show ?thesis by blast
qed

section \<open>The timeline merger: lemmas and claims\<close>

lemma findIndex_from_none:
  "\<forall>x \<in> set xs. \<not> p x \<Longrightarrow> findIndex_from p i xs = - 1"
  by (induction xs arbitrary: i) simp_all

lemma findIndex_from_first:
  "j < length xs \<Longrightarrow> p (xs ! j) \<Longrightarrow> \<forall>k<j. \<not> p (xs ! k)
   \<Longrightarrow> findIndex_from p i xs = i + int j"
proof (induction xs arbitrary: i j)
  case Nil
  then show ?case by simp
next
  case (Cons x xs)
  show ?case
  proof (cases j)
    case 0
    with Cons.prems show ?thesis by simp
  next
    case (Suc j')
    with Cons.prems have nx: "\<not> p x" by auto
    from Suc Cons.prems have "j' < length xs" "p (xs ! j')" by simp_all
    moreover from Suc Cons.prems have "\<forall>k<j'. \<not> p (xs ! k)" by auto
    ultimately have "findIndex_from p (i + 1) xs = i + 1 + int j'"
      by (rule Cons.IH)
    with nx Suc show ?thesis by simp
  qed
qed

lemma findIndex_from_found:
  "findIndex_from p i xs \<noteq> - 1 \<Longrightarrow> 0 \<le> i
   \<Longrightarrow> \<exists>j<length xs. findIndex_from p i xs = i + int j \<and> p (xs ! j)"
proof (induction xs arbitrary: i)
  case Nil
  then show ?case by simp
next
  case (Cons x xs)
  show ?case
  proof (cases "p x")
    case True
    then show ?thesis by auto
  next
    case False
    with Cons.prems have "findIndex_from p (i + 1) xs \<noteq> - 1" by simp
    moreover from Cons.prems have "0 \<le> i + 1" by simp
    ultimately obtain j where "j < length xs"
      "findIndex_from p (i + 1) xs = i + 1 + int j" "p (xs ! j)"
      using Cons.IH by blast
    with False show ?thesis by (intro exI [of _ "Suc j"]) simp
  qed
qed

lemma split_inherited:
  assumes "c \<in> set Object_prototype_keys"
  shows "splitIntoSentences t (Some c) = Inl TypeError"
proof -
  have "ja_JP \<notin> set Object_prototype_keys" "en_US \<notin> set Object_prototype_keys"
    by code_simp+
  with assms have "c \<noteq> ja_JP" "c \<noteq> en_US" by auto
  then have "get_SENTENCE_DELIMITERS c = InheritedValue"
    using assms by (simp add: get_SENTENCE_DELIMITERS_def SENTENCE_DELIMITERS_def)
  moreover have "supportsSentenceTranslation (Some c)"
    using assms by (simp add: supports_iff)
  ultimately show ?thesis by (simp add: splitIntoSentences_def)
qed

lemma split_total:
  assumes "l \<notin> Some ` set Object_prototype_keys"
  shows "\<exists>ss. splitIntoSentences t l = Inr ss"
proof (cases "supportsSentenceTranslation l")
  case False
  then show ?thesis by (simp add: split_unsupported)
next
  case True
  then obtain c where c: "l = Some c"
    by (cases l) (simp_all add: supportsSentenceTranslation_def)
  with True assms have "c = ja_JP \<or> c = en_US" by (auto simp: supports_iff)
  with c show ?thesis using split_ja_JP split_en_US by auto
qed

lemma update_total:
  "l \<notin> Some ` set Object_prototype_keys \<Longrightarrow> \<exists>rs. updateTranslationSegments t l prev = Inr rs"
  using split_total [of l t] by (auto simp: updateTranslationSegments_def)

lemma upsert_existing:
  assumes "i < length prev" "segment_key (prev ! i) = segment_key new"
    "\<forall>j<i. segment_key (prev ! j) \<noteq> segment_key new"
    "updateTranslationSegments (currentText new) (languageCode new)
       (translationSegments (prev ! i)) = Inr rs"
  shows "updateRealtimeSegments prev new = Inr (prev[i := new\<lparr>translationSegments := rs\<rparr>])"
proof -
  let ?p = "\<lambda>seg. resultId seg = resultId new \<and> source seg = source new"
  from assms(2) have "?p (prev ! i)" by (simp add: segment_key_def)
  moreover from assms(3) have "\<forall>j<i. \<not> ?p (prev ! j)" by (auto simp: segment_key_def)
  ultimately have "findIndex ?p prev = int i"
    using findIndex_from_first [of i prev ?p 0] assms(1) by (simp add: findIndex_def)
  with assms(4) show ?thesis by (simp add: updateRealtimeSegments_def Let_def)
qed

lemma upsert_fresh:
  assumes "\<forall>seg \<in> set prev. segment_key seg \<noteq> segment_key new"
    "updateTranslationSegments (currentText new) (languageCode new) [] = Inr rs"
  shows "updateRealtimeSegments prev new = Inr (prev @ [new\<lparr>translationSegments := rs\<rparr>])"
proof -
  let ?p = "\<lambda>seg. resultId seg = resultId new \<and> source seg = source new"
  from assms(1) have "\<forall>seg \<in> set prev. \<not> ?p seg" by (auto simp: segment_key_def)
  then have "findIndex ?p prev = - 1" by (simp add: findIndex_def findIndex_from_none)
  with assms(2) show ?thesis by (simp add: updateRealtimeSegments_def Let_def)
qed

lemma upsert_keys:
  assumes "updateRealtimeSegments prev new = Inr next"
  shows "map segment_key next = map segment_key prev
         \<or> (segment_key new \<notin> set (map segment_key prev)
             \<and> map segment_key next = map segment_key prev @ [segment_key new])"
proof -
  let ?p = "\<lambda>seg. resultId seg = resultId new \<and> source seg = source new"
  show ?thesis
  proof (cases "findIndex ?p prev = - 1")
    case True
    have "\<forall>seg \<in> set prev. \<not> ?p seg"
    proof (rule ccontr)
      assume "\<not> (\<forall>seg \<in> set prev. \<not> ?p seg)"
      then obtain seg where "seg \<in> set prev" "?p seg" by blast
      then obtain k where k: "k < length prev" "?p (prev ! k)"
        by (metis in_set_conv_nth)
      define j where "j = (LEAST j. j < length prev \<and> ?p (prev ! j))"
      have j: "j < length prev \<and> ?p (prev ! j)"
        unfolding j_def using k by (intro LeastI [of "\<lambda>j. j < length prev \<and> ?p (prev ! j)" k]) simp
      have "\<forall>m<j. \<not> ?p (prev ! m)"
      proof (intro allI impI)
        fix m assume m: "m < j"
        then have "\<not> (m < length prev \<and> ?p (prev ! m))"
          unfolding j_def by (rule not_less_Least)
        with m j show "\<not> ?p (prev ! m)" by simp
      qed
      with j have "findIndex ?p prev = int j"
        using findIndex_from_first [of j prev ?p 0] by (simp add: findIndex_def)
      with True show False by simp
    qed
    then have fresh: "segment_key new \<notin> set (map segment_key prev)"
      by (auto simp: segment_key_def)
    from True assms obtain rs where "next = prev @ [new\<lparr>translationSegments := rs\<rparr>]"
      by (auto simp: updateRealtimeSegments_def Let_def split: sum.splits)
    with fresh show ?thesis by (simp add: segment_key_def)
  next
    case False
    then obtain j where j: "j < length prev" "findIndex ?p prev = int j" "?p (prev ! j)"
      using findIndex_from_found [of ?p 0 prev] by (auto simp: findIndex_def)
    with assms obtain rs where n: "next = prev[j := new\<lparr>translationSegments := rs\<rparr>]"
      by (auto simp: updateRealtimeSegments_def Let_def split: sum.splits)
    from j have "segment_key (prev ! j) = segment_key new" by (simp add: segment_key_def)
    with j(1) have "(map segment_key prev)[j := segment_key new] = map segment_key prev"
      by (metis length_map list_update_id nth_map)
    with n have "map segment_key next = map segment_key prev"
      by (simp add: map_update segment_key_def)
    then show ?thesis by simp
  qed
qed

lemma upsert_distinct:
  "updateRealtimeSegments prev new = Inr next \<Longrightarrow> distinct (map segment_key prev)
   \<Longrightarrow> distinct (map segment_key next)"
  using upsert_keys [of prev new "next"] by auto

lemma upsert_all_distinct:
  "updateRealtimeSegments_all prev us = Inr es \<Longrightarrow> distinct (map segment_key prev)
   \<Longrightarrow> distinct (map segment_key es)"
proof (induction us arbitrary: prev)
  case Nil
  then show ?case by simp
next
  case (Cons u us)
  then show ?case
    by (auto split: sum.splits dest: upsert_distinct)
qed

lemma upsert_total:
  assumes "languageCode new \<notin> Some ` set Object_prototype_keys"
  shows "\<exists>next. updateRealtimeSegments prev new = Inr next"
proof -
  let ?p = "\<lambda>seg. resultId seg = resultId new \<and> source seg = source new"
  obtain rs where "updateTranslationSegments (currentText new) (languageCode new)
       (translationSegments (prev ! nat (findIndex ?p prev))) = Inr rs"
    using update_total [OF assms] by blast
  moreover obtain rs' where "updateTranslationSegments (currentText new) (languageCode new) []
     = Inr rs'"
    using update_total [OF assms] by blast
  ultimately show ?thesis by (simp add: updateRealtimeSegments_def Let_def)
qed

lemma upsert_all_total:
  "\<forall>u \<in> set us. languageCode u \<notin> Some ` set Object_prototype_keys
   \<Longrightarrow> \<exists>es. updateRealtimeSegments_all prev us = Inr es"
proof (induction us arbitrary: prev)
  case Nil
  then show ?case by simp
next
  case (Cons u us)
  then obtain n where "updateRealtimeSegments prev u = Inr n"
    using upsert_total [of u prev] by auto
  with Cons show ?case by simp
qed

text \<open>
  Claim C3. A run of upserts from the empty timeline ends with at most one entry per
  key (resultId, source), and it does end with a timeline when no language code is an
  inherited property name. An upsert whose key is that of an existing entry replaces
  that entry by the update, with the translation segments reconciled from the existing
  entry's against the update's concatenated text: its transcripts joined by one space,
  then trimmed. An upsert with a fresh key appends the update, reconciled against the
  same text from no segments.
\<close>

theorem C3_upsert:
  "(updateRealtimeSegments_all [] us = Inr es \<longrightarrow> distinct (map segment_key es))
   \<and> ((\<forall>u \<in> set us. languageCode u \<notin> Some ` set Object_prototype_keys) \<longrightarrow>
        (\<exists>es'. updateRealtimeSegments_all [] us = Inr es'))
   \<and> (i < length prev \<and> segment_key (prev ! i) = segment_key new
        \<and> (\<forall>j<i. segment_key (prev ! j) \<noteq> segment_key new)
        \<and> updateTranslationSegments
             (trim (join (js '' '') (map transcript (transcripts new)))) (languageCode new)
             (translationSegments (prev ! i)) = Inr rs \<longrightarrow>
        updateRealtimeSegments prev new
          = Inr (prev[i := new\<lparr>translationSegments := rs\<rparr>]))
   \<and> ((\<forall>seg \<in> set prev. segment_key seg \<noteq> segment_key new)
        \<and> updateTranslationSegments
             (trim (join (js '' '') (map transcript (transcripts new)))) (languageCode new) [] = Inr rs' \<longrightarrow>
        updateRealtimeSegments prev new
          = Inr (prev @ [new\<lparr>translationSegments := rs'\<rparr>]))"
proof (intro conjI impI)
  assume "updateRealtimeSegments_all [] us = Inr es"
  then show "distinct (map segment_key es)"
    using upsert_all_distinct [of "[]" us es] by simp
next
  assume "\<forall>u \<in> set us. languageCode u \<notin> Some ` set Object_prototype_keys"
  then show "\<exists>es'. updateRealtimeSegments_all [] us = Inr es'"
    by (rule upsert_all_total)
next
  assume "i < length prev \<and> segment_key (prev ! i) = segment_key new
        \<and> (\<forall>j<i. segment_key (prev ! j) \<noteq> segment_key new)
        \<and> updateTranslationSegments
             (trim (join (js '' '') (map transcript (transcripts new)))) (languageCode new)
             (translationSegments (prev ! i)) = Inr rs"
  then show "updateRealtimeSegments prev new
          = Inr (prev[i := new\<lparr>translationSegments := rs\<rparr>])"
    using upsert_existing [of i prev new rs] by (simp add: currentText_def)
next
  assume "(\<forall>seg \<in> set prev. segment_key seg \<noteq> segment_key new)
        \<and> updateTranslationSegments
             (trim (join (js '' '') (map transcript (transcripts new)))) (languageCode new) [] = Inr rs'"
  then show "updateRealtimeSegments prev new
          = Inr (prev @ [new\<lparr>translationSegments := rs'\<rparr>])"
    using upsert_fresh [of prev new rs'] by (simp add: currentText_def)
qed


theorem C3_upsert_witness:
  "updateRealtimeSegments_all [] [first_update, revised_update, screen_update]
     = Inr [revised_update\<lparr>translationSegments :=
              [pending_sentence,
               \<lparr>text = js '' Bye.'', needsTranslation = True, translation = None,
                 lastTranslatedText = None, requestTimestamp = None\<rparr>]\<rparr>,
            screen_update\<lparr>translationSegments := [pending_sentence]\<rparr>]
   \<and> distinct (map segment_key
        [revised_update\<lparr>translationSegments :=
              [pending_sentence,
               \<lparr>text = js '' Bye.'', needsTranslation = True, translation = None,
                 lastTranslatedText = None, requestTimestamp = None\<rparr>]\<rparr>,
            screen_update\<lparr>translationSegments := [pending_sentence]\<rparr>])
   \<and> map languageCode [first_update, revised_update, screen_update]
       = [Some en_US, Some en_US, Some en_US]
   \<and> en_US \<notin> set Object_prototype_keys
   \<and> map transcript (transcripts revised_update) = [js ''  Hello.'', js ''Bye. '']
   \<and> trim (join (js '' '') (map transcript (transcripts revised_update)))
       = js ''Hello. Bye.''
   \<and> updateRealtimeSegments [spoken_entry] revised_update
       = Inr [revised_update\<lparr>translationSegments :=
              [pending_sentence,
               \<lparr>text = js '' Bye.'', needsTranslation = True, translation = None,
                 lastTranslatedText = None, requestTimestamp = None\<rparr>]\<rparr>]
   \<and> updateRealtimeSegments [] first_update = Inr [spoken_entry]"
proof -
  let ?bye = "\<lparr>text = js '' Bye.'', needsTranslation = True, translation = None,
                 lastTranslatedText = None, requestTimestamp = None\<rparr>"
  let ?e1 = "revised_update\<lparr>translationSegments := [pending_sentence, ?bye]\<rparr>"
  let ?e2 = "screen_update\<lparr>translationSegments := [pending_sentence]\<rparr>"
  note t = C3_upsert [of "[first_update, revised_update, screen_update]" "[?e1, ?e2]"
      0 "[spoken_entry]" revised_update "[pending_sentence, ?bye]"]
  have h1: "updateRealtimeSegments_all [] [first_update, revised_update, screen_update]
     = Inr [?e1, ?e2]"
    by code_simp
  from t h1 have 1: "distinct (map segment_key [?e1, ?e2])" by blast
  have h2: "en_US \<notin> set Object_prototype_keys" by code_simp
  have h2': "map languageCode [first_update, revised_update, screen_update]
       = [Some en_US, Some en_US, Some en_US]"
    by (simp add: first_update_def revised_update_def screen_update_def spoken_entry_def)
  have c1: "map transcript (transcripts revised_update) = [js ''  Hello.'', js ''Bye. '']"
    by (simp add: revised_update_def)
  have c2: "trim (join (js '' '') (map transcript (transcripts revised_update)))
       = js ''Hello. Bye.''"
    by code_simp
  have k: "segment_key ([spoken_entry] ! 0) = segment_key revised_update" by code_simp
  have r: "updateTranslationSegments
             (trim (join (js '' '') (map transcript (transcripts revised_update))))
             (languageCode revised_update)
             (translationSegments ([spoken_entry] ! 0)) = Inr [pending_sentence, ?bye]"
    by code_simp
  from k r have "0 < length [spoken_entry]
        \<and> segment_key ([spoken_entry] ! 0) = segment_key revised_update
        \<and> (\<forall>j<0. segment_key ([spoken_entry] ! j) \<noteq> segment_key revised_update)
        \<and> updateTranslationSegments
             (trim (join (js '' '') (map transcript (transcripts revised_update))))
             (languageCode revised_update)
             (translationSegments ([spoken_entry] ! 0)) = Inr [pending_sentence, ?bye]"
    by simp
  with t have "updateRealtimeSegments [spoken_entry] revised_update
       = Inr ([spoken_entry][0 := ?e1])"
    by blast
  then have 3: "updateRealtimeSegments [spoken_entry] revised_update = Inr [?e1]" by simp
  have f: "updateTranslationSegments
             (trim (join (js '' '') (map transcript (transcripts first_update))))
             (languageCode first_update) []
       = Inr [pending_sentence]"
    by code_simp
  have s: "first_update\<lparr>translationSegments := [pending_sentence]\<rparr> = spoken_entry"
    by (simp add: first_update_def spoken_entry_def)
  from C3_upsert [of "[]" "[]" 0 "[]" first_update "[]" "[pending_sentence]"] f
  have "updateRealtimeSegments [] first_update
       = Inr ([] @ [first_update\<lparr>translationSegments := [pending_sentence]\<rparr>])"
    by simp
  with s have 4: "updateRealtimeSegments [] first_update = Inr [spoken_entry]" by simp
  from h1 1 h2 h2' c1 c2 3 4 show ?thesis by blast
qed

section \<open>The race of two requests\<close>

lemma recording_from_merger:
  "updateRealtimeSegments [] (spoken_entry\<lparr>translationSegments := []\<rparr>) = Inr [spoken_entry]"
  by code_simp

lemma requestId_spoken: "requestId spoken_entry 0 = js ''r-0''"
  by code_simp

text \<open>
  Claim C1, which the code does not meet. R2's response arrives first and is committed;
  R1's response arrives second, and it is committed as well, although the side index
  holds 200 for the sentence by then and R1 was issued at 100: the test reads the side
  index of the closure, not the one of the state.
\<close>

theorem C1_stale_response_commits:
  "translation (translationSegments (realtimeSegments
      (translateSentence_settle
         (translateSentence_settle after_R2 request_R2 (Resolves (Some (js ''two''))))
         request_R1 (Resolves (Some (js ''one'')))) ! 0) ! 0) = Some (js ''one'')
   \<and> latestRequestTimestamps
      (translateSentence_settle
         (translateSentence_settle after_R2 request_R2 (Resolves (Some (js ''two''))))
         request_R1 (Resolves (Some (js ''one'')))) (js ''r-0'') = Some 200
   \<and> latestRequestTimestamps
      (translateSentence_settle after_R2 request_R2 (Resolves (Some (js ''two''))))
      (requestId (inv_segment request_R1) (inv_sentenceIndex request_R1)) = Some 200
   \<and> inv_requestTimestamp request_R1 = 100
   \<and> translation (translationSegments (realtimeSegments
      (translateSentence_settle after_R2 request_R2 (Resolves (Some (js ''two'')))) ! 0) ! 0)
      = Some (js ''two'')"
  by code_simp

text \<open>In the other order of arrival R2's result is the last one written.\<close>

lemma R1_then_R2:
  "translation (translationSegments (realtimeSegments
      (translateSentence_settle
         (translateSentence_settle after_R2 request_R1 (Resolves (Some (js ''one''))))
         request_R2 (Resolves (Some (js ''two'')))) ! 0) ! 0) = Some (js ''two'')"
  by code_simp

text \<open>
  The sentence after both responses: R1's translation, and no further translation
  wanted.
\<close>

lemma final_record:
  "realtimeSegments
      (translateSentence_settle
         (translateSentence_settle after_R2 request_R2 (Resolves (Some (js ''two''))))
         request_R1 (Resolves (Some (js ''one''))))
   = [spoken_entry\<lparr>translationSegments :=
        [\<lparr>text = js ''Hello.'', needsTranslation = False, translation = Some (js ''one''),
          lastTranslatedText = Some (js ''Hello.''), requestTimestamp = Some 200\<rparr>]\<rparr>]"
  by code_simp

text \<open>Whether a result is committed does not depend on the side index of the state.\<close>

lemma isLatestRequest_closure_only:
  "realtimeSegments (translateSentence_resolve (st\<lparr>latestRequestTimestamps := m\<rparr>) call outcome)
   = realtimeSegments (translateSentence_resolve st call outcome)"
  by (simp add: translateSentence_resolve_def split: try_outcome.splits)

end
